theory Spec2Isabelle
  imports Complex_Main "HOL-Library.List_Lexorder" "HOL-Library.Char_ord" "HOL-Library.Multiset"
begin

section \<open>Values shared by the pipeline\<close>

text \<open>
  The JavaScript sources test optional fields for truthiness only (\<^verbatim>\<open>!pub.pmid\<close>,
  \<^verbatim>\<open>!publication.publicationDate\<close>, \<^verbatim>\<open>pub.title || null\<close>). An optional string field is
  a \<open>string option\<close>: \<open>None\<close> stands for \<^verbatim>\<open>undefined\<close> and \<^verbatim>\<open>null\<close>, and the empty
  string is falsy as well.
\<close>

definition truthy :: "string option \<Rightarrow> bool" where
  "truthy v = (case v of None \<Rightarrow> False | Some s \<Rightarrow> s \<noteq> [])"


text \<open>
  A publication as the discovery code passes it around. Array entries are objects (never
  \<^verbatim>\<open>null\<close>), and \<open>sources\<close> is the array of strategy names that \<open>discoverPublications\<close>
  attaches to every candidate.
\<close>

record publication =
  pmid :: "string option"
  doi :: "string option"
  title :: "string option"
  abstract :: "string option"
  publicationDate :: "string option"
  sources :: "string list"

text \<open>Every \<^verbatim>\<open>throw\<close> of the modelled functions.\<close>

datatype error =
    MaxDateRequired
  | MinDateRequired
  | InvalidTrialDate
  | NoPmidFound
  | TypeError
  | UnknownStrategy string
  | NoChunksFound
  | DailyQuotaExhausted nat nat
  | UploadFailed

section \<open>Dates\<close>

text \<open>
  The date filters call \<^verbatim>\<open>new Date(s)\<close> and \<^verbatim>\<open>getTime()\<close>. What the engine accepts beyond
  the ECMAScript date-time format is implementation-defined, so the filters take the
  parser as a parameter \<open>newDate\<close>: \<open>newDate s = Some t\<close> when \<^verbatim>\<open>new Date(s).getTime()\<close> is
  the number \<open>t\<close> (milliseconds since the epoch), \<open>None\<close> when it is \<^verbatim>\<open>NaN\<close>.

  \<open>isoDateTime\<close> is that function on the date-only forms of the ECMAScript format,
  \<^verbatim>\<open>YYYY\<close>, \<^verbatim>\<open>YYYY-MM\<close> and \<^verbatim>\<open>YYYY-MM-DD\<close> (read as UTC midnight), which are the forms the
  Publication data model and \<open>parsePubDate\<close> produce; it is used for the concrete runs.
\<close>

definition isDigit :: "char \<Rightarrow> bool" where
  "isDigit c = (c \<in> set ''0123456789'')"

definition digitVal :: "char \<Rightarrow> int" where
  "digitVal c = of_char c - 48"

definition digitsValue :: "string \<Rightarrow> int" where
  "digitsValue s = foldl (\<lambda>n c. 10 * n + digitVal c) 0 s"

definition isLeapYear :: "int \<Rightarrow> bool" where
  "isLeapYear y = (y mod 4 = 0 \<and> (y mod 100 \<noteq> 0 \<or> y mod 400 = 0))"

definition daysInMonth :: "int \<Rightarrow> int \<Rightarrow> int" where
  "daysInMonth y m =
     (if m = 2 then (if isLeapYear y then 29 else 28)
      else if m = 4 \<or> m = 6 \<or> m = 9 \<or> m = 11 then 30 else 31)"

text \<open>Days from 1970-01-01 to the given civil date (proleptic Gregorian calendar).\<close>

definition daysFromCivil :: "int \<Rightarrow> int \<Rightarrow> int \<Rightarrow> int" where
  "daysFromCivil y m d =
     (let y' = (if m \<le> 2 then y - 1 else y);
          era = y' div 400;
          yoe = y' - era * 400;
          mp = (if m > 2 then m - 3 else m + 9);
          doy = (153 * mp + 2) div 5 + d - 1;
          doe = yoe * 365 + yoe div 4 - yoe div 100 + doy
      in era * 146097 + doe - 719468)"

definition msPerDay :: int where
  "msPerDay = 86400000"

definition civilTime :: "int \<Rightarrow> int \<Rightarrow> int \<Rightarrow> int option" where
  "civilTime y m d =
     (if 1 \<le> m \<and> m \<le> 12 \<and> 1 \<le> d \<and> d \<le> daysInMonth y m
      then Some (daysFromCivil y m d * msPerDay) else None)"

definition isoDateTime :: "string \<Rightarrow> int option" where
  "isoDateTime s =
     (let yy = take 4 s; mm = take 2 (drop 5 s); dd = take 2 (drop 8 s);
          dash1 = (take 1 (drop 4 s) = ''-''); dash2 = (take 1 (drop 7 s) = ''-'')
      in if length s = 4 \<and> list_all isDigit yy
           then civilTime (digitsValue yy) 1 1
         else if length s = 7 \<and> list_all isDigit yy \<and> dash1 \<and> list_all isDigit mm
           then civilTime (digitsValue yy) (digitsValue mm) 1
         else if length s = 10 \<and> list_all isDigit yy \<and> dash1 \<and> list_all isDigit mm
                 \<and> dash2 \<and> list_all isDigit dd
           then civilTime (digitsValue yy) (digitsValue mm) (digitsValue dd)
         else None)"

section \<open>Date filters (utils.js)\<close>

record dateFilterResult =
  eligible :: "publication list"
  filtered :: "publication list"

text \<open>
  One turn of the \<^verbatim>\<open>for (const publication of publications)\<close> loop of \<open>maxDateFilter\<close>:
  an entry without a date is pushed to \<open>eligible\<close>, one whose date is invalid is skipped
  (\<^verbatim>\<open>continue\<close>), the others go to \<open>eligible\<close> when \<^verbatim>\<open>pubDate < cutoffDate\<close> and to
  \<open>filtered\<close> otherwise.
\<close>

definition maxDateStep ::
  "(string \<Rightarrow> int option) \<Rightarrow> int \<Rightarrow> dateFilterResult \<Rightarrow> publication \<Rightarrow> dateFilterResult" where
  "maxDateStep newDate cutoffDate r publication =
     (if \<not> truthy (publicationDate publication)
      then r\<lparr>eligible := eligible r @ [publication]\<rparr>
      else (case newDate (the (publicationDate publication)) of
              None \<Rightarrow> r
            | Some pubDate \<Rightarrow>
                if pubDate < cutoffDate
                then r\<lparr>eligible := eligible r @ [publication]\<rparr>
                else r\<lparr>filtered := filtered r @ [publication]\<rparr>))"

definition maxDateFilter ::
  "(string \<Rightarrow> int option) \<Rightarrow> publication list \<Rightarrow> string \<Rightarrow> error + dateFilterResult" where
  "maxDateFilter newDate publications maxDate =
     (if maxDate = [] then Inl MaxDateRequired
      else (case newDate maxDate of
              None \<Rightarrow> Inl InvalidTrialDate
            | Some cutoffDate \<Rightarrow>
                Inr (foldl (maxDateStep newDate cutoffDate)
                       \<lparr>eligible = [], filtered = []\<rparr> publications)))"

text \<open>The loop of \<open>minDateFilter\<close> differs in the comparison only: \<^verbatim>\<open>pubDate >= cutoffDate\<close>.\<close>

definition minDateStep ::
  "(string \<Rightarrow> int option) \<Rightarrow> int \<Rightarrow> dateFilterResult \<Rightarrow> publication \<Rightarrow> dateFilterResult" where
  "minDateStep newDate cutoffDate r publication =
     (if \<not> truthy (publicationDate publication)
      then r\<lparr>eligible := eligible r @ [publication]\<rparr>
      else (case newDate (the (publicationDate publication)) of
              None \<Rightarrow> r
            | Some pubDate \<Rightarrow>
                if pubDate \<ge> cutoffDate
                then r\<lparr>eligible := eligible r @ [publication]\<rparr>
                else r\<lparr>filtered := filtered r @ [publication]\<rparr>))"

definition minDateFilter ::
  "(string \<Rightarrow> int option) \<Rightarrow> publication list \<Rightarrow> string \<Rightarrow> error + dateFilterResult" where
  "minDateFilter newDate publications minDate =
     (if minDate = [] then Inl MinDateRequired
      else (case newDate minDate of
              None \<Rightarrow> Inl InvalidTrialDate
            | Some cutoffDate \<Rightarrow>
                Inr (foldl (minDateStep newDate cutoffDate)
                       \<lparr>eligible = [], filtered = []\<rparr> publications)))"

text \<open>The time a publication's date parses to, if it has a date and the date is valid.\<close>

definition pubTime :: "(string \<Rightarrow> int option) \<Rightarrow> publication \<Rightarrow> int option" where
  "pubTime newDate p =
     (if truthy (publicationDate p) then newDate (the (publicationDate p)) else None)"

text \<open>A publication with a non-empty date string that does not parse.\<close>

definition invalidDate :: "(string \<Rightarrow> int option) \<Rightarrow> publication \<Rightarrow> bool" where
  "invalidDate newDate p = (truthy (publicationDate p) \<and> newDate (the (publicationDate p)) = None)"

text \<open>Sample publications of the concrete runs.\<close>

definition candidate :: "string \<Rightarrow> string option \<Rightarrow> publication" where
  "candidate p d =
     \<lparr>pmid = Some p, doi = None, title = None, abstract = None, publicationDate = d,
      sources = []\<rparr>"

definition scenarioA :: publication where
  "scenarioA = candidate ''A'' (Some ''2009-12'')"

definition scenarioB :: publication where
  "scenarioB = candidate ''B'' (Some ''2012'')"

definition scenarioC :: publication where
  "scenarioC = candidate ''C'' None"

definition undatable :: publication where
  "undatable = candidate ''31415926'' (Some ''not-a-date'')"

section \<open>Deduplication (utils.js)\<close>

text \<open>
  \<open>removeDuplicatePublications\<close> reduces the list into a plain object \<^verbatim>\<open>{}\<close> keyed by
  PMID and returns \<^verbatim>\<open>Object.values\<close> of it. The object is an association list in
  insertion order. A plain object inherits the members of \<^verbatim>\<open>Object.prototype\<close>, so
  \<^verbatim>\<open>prev[curPmid]\<close> is truthy for these keys even in the empty object.
\<close>

definition objectPrototypeKeys :: "string list" where
  "objectPrototypeKeys =
     [''constructor'', ''__defineGetter__'', ''__defineSetter__'', ''hasOwnProperty'',
      ''__lookupGetter__'', ''__lookupSetter__'', ''isPrototypeOf'', ''propertyIsEnumerable'',
      ''toString'', ''valueOf'', ''__proto__'', ''toLocaleString'']"

text \<open>\<^verbatim>\<open>obj[k] = v\<close>: an existing key keeps its place, a new one is appended.\<close>

fun setKey :: "string \<Rightarrow> 'v \<Rightarrow> (string \<times> 'v) list \<Rightarrow> (string \<times> 'v) list" where
  "setKey k v [] = [(k, v)]"
| "setKey k v (kv # kvs) = (if fst kv = k then (k, v) # kvs else kv # setKey k v kvs)"

text \<open>
  \<^verbatim>\<open>Object.values\<close> lists the values of array-index keys (canonical decimal strings below
  \<^verbatim>\<open>2^32 - 1\<close>) first, in ascending numeric order, then those of the other keys in
  insertion order.
\<close>

definition isArrayIndex :: "string \<Rightarrow> bool" where
  "isArrayIndex k =
     (k \<noteq> [] \<and> list_all isDigit k \<and> (k = ''0'' \<or> hd k \<noteq> CHR ''0'')
      \<and> digitsValue k < 4294967295)"

definition ownEntries :: "(string \<times> 'v) list \<Rightarrow> (string \<times> 'v) list" where
  "ownEntries obj =
     sort_key (\<lambda>kv. digitsValue (fst kv)) (filter (\<lambda>kv. isArrayIndex (fst kv)) obj)
     @ filter (\<lambda>kv. \<not> isArrayIndex (fst kv)) obj"

definition objectValues :: "(string \<times> 'v) list \<Rightarrow> 'v list" where
  "objectValues obj = map snd (ownEntries obj)"

text \<open>\<^verbatim>\<open>[...new Set(xs)]\<close>: the first occurrence of each element, in order.\<close>

definition spreadSet :: "'a list \<Rightarrow> 'a list" where
  "spreadSet xs = foldl (\<lambda>acc x. if x \<in> set acc then acc else acc @ [x]) [] xs"

text \<open>
  The reducer callback. A falsy \<open>pmid\<close> throws. For an inherited key \<^verbatim>\<open>prev[curPmid]\<close> is
  truthy and has no \<open>sources\<close>, so the spread of \<^verbatim>\<open>undefined\<close> throws a \<^verbatim>\<open>TypeError\<close>. A key
  already stored gets \<^verbatim>\<open>[...new Set([...cur.sources, ...prev[curPmid].sources])]\<close>; a new
  key stores a deep copy of \<open>cur\<close>.
\<close>

definition dedupStep ::
  "(string \<times> publication) list \<Rightarrow> publication \<Rightarrow> error + (string \<times> publication) list" where
  "dedupStep prev cur =
     (if \<not> truthy (pmid cur) then Inl NoPmidFound
      else (let curPmid = the (pmid cur) in
        if curPmid \<in> set objectPrototypeKeys then Inl TypeError
        else (case map_of prev curPmid of
                Some found \<Rightarrow>
                  Inr (setKey curPmid
                         (found\<lparr>sources := spreadSet (sources cur @ sources found)\<rparr>) prev)
              | None \<Rightarrow> Inr (setKey curPmid cur prev))))"

fun reducePublications ::
  "(string \<times> publication) list \<Rightarrow> publication list \<Rightarrow> error + (string \<times> publication) list" where
  "reducePublications prev [] = Inr prev"
| "reducePublications prev (cur # rest) =
     (case dedupStep prev cur of
        Inl e \<Rightarrow> Inl e
      | Inr prev' \<Rightarrow> reducePublications prev' rest)"

definition removeDuplicatePublications :: "publication list \<Rightarrow> error + publication list" where
  "removeDuplicatePublications publications =
     (case reducePublications [] publications of
        Inl e \<Rightarrow> Inl e
      | Inr uniquePubSet \<Rightarrow> Inr (objectValues uniquePubSet))"

text \<open>An entry has a pmid: a PMID is a non-empty string of digits.\<close>

definition hasPmid :: "publication \<Rightarrow> bool" where
  "hasPmid p = (truthy (pmid p) \<and> list_all isDigit (the (pmid p)))"

text \<open>A candidate with its source tags, for the concrete runs.\<close>

definition tagged :: "string \<Rightarrow> string list \<Rightarrow> publication" where
  "tagged p ss = (candidate p None)\<lparr>sources := ss\<rparr>"

text \<open>
  What the reduction maintains: the keys are the PMIDs seen so far, each once, and the
  entry under a key carries that PMID and the union of the sources seen under it.
\<close>

definition mergedSources :: "publication list \<Rightarrow> string \<Rightarrow> string set" where
  "mergedSources seen k = (\<Union>p \<in> {p \<in> set seen. pmid p = Some k}. set (sources p))"

definition dedupInv :: "(string \<times> publication) list \<Rightarrow> publication list \<Rightarrow> bool" where
  "dedupInv obj seen =
     (distinct (map fst obj)
      \<and> set (map fst obj) = {k. \<exists>p \<in> set seen. pmid p = Some k}
      \<and> (\<forall>k e. map_of obj k = Some e \<longrightarrow>
            pmid e = Some k \<and> set (sources e) = mergedSources seen k))"

definition dups :: "publication list" where
  "dups = [tagged ''333'' [''pubmed_naive''], tagged ''222'' [''google_scholar''],
           tagged ''333'' [''linked_at_registration'', ''pubmed_naive'']]"

section \<open>Data of the batch runner\<close>

text \<open>
  The registration record, with the fields the modelled code reads. The registry's own
  \<open>hasResults\<close> flag is the field \<open>registryHasResults\<close> here, apart from the field of the
  same name in a stored classification.
\<close>

record reference =
  refPmid :: "string option"
  citation :: "string option"

record registration =
  trialId :: string
  briefTitle :: "string option"
  investigatorFullName :: "string option"
  startDate :: "string option"
  registryHasResults :: "bool option"
  references :: "reference list"
  linkedPubmedIds :: "string list"

text \<open>An entry of the \<open>errors\<close> that \<open>discoverPublications\<close> returns.\<close>

record strategyError =
  results :: "publication list"
  fn :: string
  error :: "string option"

text \<open>\<open>progress.publications[trialId]\<close>, as PUB_DISCOVERY stores it.\<close>

record pubData =
  publications :: "publication list"
  filteredPublications :: "publication list"
  errors :: "strategyError list"






section \<open>Stage FINALIZE (finalize.js)\<close>

text \<open>\<^verbatim>\<open>Array.prototype.join\<close>: \<^verbatim>\<open>null\<close> and \<^verbatim>\<open>undefined\<close> entries are written as empty strings.\<close>

definition strOf :: "string option \<Rightarrow> string" where
  "strOf v = (case v of None \<Rightarrow> [] | Some s \<Rightarrow> s)"


text \<open>
  The body of the row loop for one trial \<open>tid\<close> with its \<open>pubData\<close>; \<open>files\<close> is the
  directory of classification results, by file name without extension.
\<close>

definition customId :: "string \<Rightarrow> publication \<Rightarrow> string" where
  "customId tid pub = tid @ ''__'' @ strOf (pmid pub)"

definition publicationsWithPmids :: "pubData \<Rightarrow> publication list" where
  "publicationsWithPmids pd = filter (\<lambda>pub. truthy (pmid pub)) (publications pd)"





















section \<open>Discovery engine (publication/index.js)\<close>

text \<open>
  A strategy is a JavaScript function: it has a \<^verbatim>\<open>name\<close> (\<open>fnName\<close>) and, called on the
  registration (\<^verbatim>\<open>null\<close> when the registration cache has no entry), either throws an
  error with a message or returns \<^verbatim>\<open>{results, error}\<close>. What it does in between (PubMed,
  web search, files) is its own business, so the table \<^verbatim>\<open>SEARCH_FUNCTIONS\<close> is a parameter
  \<open>searchFunctions\<close> of the engine, \<open>None\<close> for a name that is not a key.
\<close>

datatype outcome = Throws string | Returns "publication list" "string option"

record strategy =
  fnName :: string
  run :: "registration option \<Rightarrow> outcome"

text \<open>The returned \<^verbatim>\<open>{discoveredPublications, errors}\<close> (\<open>errors\<close> is \<open>discoveryErrors\<close> here).\<close>

record discovery =
  discoveredPublications :: "publication list"
  discoveryErrors :: "strategyError list"

text \<open>
  The wrapper around one strategy: on return every result gets
  \<^verbatim>\<open>sources: [strategyName]\<close>; a thrown error becomes
  \<^verbatim>\<open>{results: [], fn: fn.name, error: error.message}\<close>.
\<close>

definition wrapStrategy :: "string \<Rightarrow> strategy \<Rightarrow> registration option \<Rightarrow> strategyError" where
  "wrapStrategy strategyName st reg =
     (case run st reg of
        Returns rs err \<Rightarrow>
          \<lparr>results = map (\<lambda>pub. pub\<lparr>sources := [strategyName]\<rparr>) rs,
           fn = fnName st, error = err\<rparr>
      | Throws msg \<Rightarrow> \<lparr>results = [], fn = fnName st, error = Some msg\<rparr>)"

text \<open>
  The names are validated first (the first unknown one throws), then every wrapper runs
  (\<^verbatim>\<open>Promise.all\<close> keeps the order of \<open>strategies\<close>); the results are concatenated, and the
  entries with a truthy \<open>error\<close> are the errors.
\<close>

definition discoverPublications ::
  "(string \<Rightarrow> strategy option) \<Rightarrow> registration option \<Rightarrow> string list \<Rightarrow> error + discovery" where
  "discoverPublications searchFunctions reg strategies =
     (case find (\<lambda>strategyName. searchFunctions strategyName = None) strategies of
        Some strategyName \<Rightarrow> Inl (UnknownStrategy strategyName)
      | None \<Rightarrow>
          (let searchResults =
                 map (\<lambda>strategyName.
                        wrapStrategy strategyName (the (searchFunctions strategyName)) reg)
                   strategies
           in Inr \<lparr>discoveredPublications = concat (map results searchResults),
                   discoveryErrors = filter (\<lambda>s. truthy (error s)) searchResults\<rparr>))"

text \<open>
  Two strategies of the repository. \<open>searchLinkedAtRegistration\<close> is pure;
  \<open>searchPubmedNaive\<close> checks its argument, then queries PubMed, which is the parameter
  \<open>pubmedSearch\<close>.
\<close>

definition hit :: "string option \<Rightarrow> publication" where
  "hit p =
     \<lparr>pmid = p, doi = None, title = None, abstract = None, publicationDate = None,
      sources = []\<rparr>"

definition searchLinkedAtRegistration :: "registration option \<Rightarrow> outcome" where
  "searchLinkedAtRegistration reg =
     (case reg of
        None \<Rightarrow> Throws ''searchLinkedAtRegistration failed, null registration''
      | Some r \<Rightarrow>
          if length (linkedPubmedIds r) > 0
          then Returns (map (\<lambda>p. hit (Some p)) (linkedPubmedIds r)) None
          else if length (references r) > 0
          then Returns (map (\<lambda>ref. hit (refPmid ref))
                          (filter (\<lambda>ref. truthy (refPmid ref)) (references r))) None
          else Returns [] None)"

definition searchPubmedNaive ::
  "(registration \<Rightarrow> outcome) \<Rightarrow> registration option \<Rightarrow> outcome" where
  "searchPubmedNaive pubmedSearch reg =
     (case reg of
        None \<Rightarrow> Throws ''searchPubmedNaive failed, null registration''
      | Some r \<Rightarrow> pubmedSearch r)"

text \<open>
  Modelled from the spec: the keys of \<^verbatim>\<open>SEARCH_FUNCTIONS\<close> are the constants \<^verbatim>\<open>PUB_SOURCE.*\<close> of
  \<^verbatim>\<open>strategies/constants.js\<close>, which is missing; the spec's strategy table gives the
  identifiers \<^verbatim>\<open>linked_at_registration\<close> and \<^verbatim>\<open>pubmed_naive\<close>. The function names are those of
  the source. Only the two strategies above are listed.
\<close>

definition SEARCH_FUNCTIONS :: "(registration \<Rightarrow> outcome) \<Rightarrow> string \<Rightarrow> strategy option" where
  "SEARCH_FUNCTIONS pubmedSearch strategyName =
     (if strategyName = ''linked_at_registration''
      then Some \<lparr>fnName = ''searchLinkedAtRegistration'', run = searchLinkedAtRegistration\<rparr>
      else if strategyName = ''pubmed_naive''
      then Some \<lparr>fnName = ''searchPubmedNaive'', run = searchPubmedNaive pubmedSearch\<rparr>
      else None)"

text \<open>A PubMed outage, and the registration of the spec's EUCTR scenario.\<close>

definition pubmedDown :: "registration \<Rightarrow> outcome" where
  "pubmedDown r = Throws ''PubMed naive search failed: Request failed with status code 429''"

definition euctrRegistration :: registration where
  "euctrRegistration =
     \<lparr>trialId = ''2007-002931-95'', briefTitle = Some ''X'', investigatorFullName = None,
      startDate = Some ''2008-03-01'', registryHasResults = Some True, references = [],
      linkedPubmedIds = [''555'', ''666'']\<rparr>"

section \<open>Loading the progress file (progress.js)\<close>

text \<open>
  \<open>loadProgress\<close> works on whatever \<^verbatim>\<open>JSON.parse\<close> returns, so the stored progress is a
  JSON value and the returned progress is the object literal the code builds.
\<close>

datatype json =
    JNull
  | JBool bool
  | JNum rat
  | JStr string
  | JArr "json list"
  | JObj "(string \<times> json) list"

text \<open>
  The file system, as \<open>loadProgress\<close> sees it: \<^verbatim>\<open>fs.existsSync\<close> is false; or reading or
  parsing throws; or parsing returns a value.
\<close>

datatype progressFile = Absent | Unreadable | Parsed json

text \<open>
  \<^verbatim>\<open>v.k\<close> for a value other than \<^verbatim>\<open>null\<close>: \<open>None\<close> is \<^verbatim>\<open>undefined\<close>. For a key written twice
  \<^verbatim>\<open>JSON.parse\<close> keeps the last value. None of the keys read here is a member that
  strings, numbers, arrays or plain objects inherit.
\<close>

definition member :: "json \<Rightarrow> string \<Rightarrow> json option" where
  "member v k = (case v of JObj kvs \<Rightarrow> map_of (rev kvs) k | _ \<Rightarrow> None)"

definition truthyJ :: "json option \<Rightarrow> bool" where
  "truthyJ v =
     (case v of
        None \<Rightarrow> False
      | Some JNull \<Rightarrow> False
      | Some (JBool b) \<Rightarrow> b
      | Some (JNum n) \<Rightarrow> n \<noteq> 0
      | Some (JStr s) \<Rightarrow> s \<noteq> []
      | Some (JArr xs) \<Rightarrow> True
      | Some (JObj kvs) \<Rightarrow> True)"

text \<open>\<^verbatim>\<open>v || d\<close>.\<close>

definition orElse :: "json option \<Rightarrow> json \<Rightarrow> json" where
  "orElse v d = (if truthyJ v then the v else d)"

text \<open>
  Modelled from the spec: the constant \<^verbatim>\<open>STAGES.PREP\<close> of \<^verbatim>\<open>utils/constants.js\<close>, which is
  missing; the spec names the stage \<^verbatim>\<open>PREP\<close>.
\<close>

definition STAGES_PREP :: string where
  "STAGES_PREP = ''PREP''"

definition emptyCounts :: json where
  "emptyCounts = JObj [(''noTrialId'', JNum 0), (''noRegistration'', JNum 0)]"

text \<open>The fresh progress the code returns at three places; \<open>now\<close> is the clock.\<close>

definition freshProgress :: "string \<Rightarrow> string \<Rightarrow> json" where
  "freshProgress inputPath now =
     JObj [(''input'', JStr inputPath),
           (''stage'', JStr STAGES_PREP),
           (''batchJobs'', JObj []),
           (''rows'', JObj []),
           (''registrations'', JObj []),
           (''publications'', JObj []),
           (''skippedCounts'', emptyCounts),
           (''startedAt'', JStr now)]"

text \<open>The progress built from the stored one, each field with its default.\<close>

definition resumedProgress :: "json \<Rightarrow> string \<Rightarrow> string \<Rightarrow> json" where
  "resumedProgress parsed inputPath now =
     JObj [(''input'', JStr inputPath),
           (''stage'', orElse (member parsed ''stage'') (JStr STAGES_PREP)),
           (''batchJobs'', orElse (member parsed ''batchJobs'') (JObj [])),
           (''rows'', orElse (member parsed ''rows'') (JObj [])),
           (''registrations'', orElse (member parsed ''registrations'') (JObj [])),
           (''publications'', orElse (member parsed ''publications'') (JObj [])),
           (''skippedCounts'', orElse (member parsed ''skippedCounts'') emptyCounts),
           (''startedAt'', orElse (member parsed ''startedAt'') (JStr now))]"

text \<open>
  \<^verbatim>\<open>parsed.input\<close> on \<^verbatim>\<open>null\<close> throws inside the \<^verbatim>\<open>try\<close>, which starts fresh. A stored input
  starts fresh only when it is truthy and differs from the current path
  (\<^verbatim>\<open>parsed.input && parsed.input !== inputPath\<close>).
\<close>

definition loadProgress :: "progressFile \<Rightarrow> string \<Rightarrow> string \<Rightarrow> json" where
  "loadProgress file inputPath now =
     (case file of
        Absent \<Rightarrow> freshProgress inputPath now
      | Unreadable \<Rightarrow> freshProgress inputPath now
      | Parsed parsed \<Rightarrow>
          if parsed = JNull then freshProgress inputPath now
          else if truthyJ (member parsed ''input'')
                  \<and> member parsed ''input'' \<noteq> Some (JStr inputPath)
          then freshProgress inputPath now
          else resumedProgress parsed inputPath now)"

text \<open>The fields taken from the stored progress, and sample progress files.\<close>

definition storedKeys :: "string list" where
  "storedKeys =
     [''stage'', ''batchJobs'', ''rows'', ''registrations'', ''publications'',
      ''skippedCounts'', ''startedAt'']"

definition storedRun :: json where
  "storedRun =
     JObj [(''input'', JStr ''trials.csv''),
           (''stage'', JStr ''RESULT_GEN_UPLOAD''),
           (''registrations'', JObj [(''NCT00000001'', JObj [(''trialId'', JStr ''NCT00000001'')])]),
           (''startedAt'', JStr ''2025-03-01T08:00:00.000Z'')]"

definition sampleNow :: string where
  "sampleNow = ''2025-03-02T09:00:00.000Z''"

definition unlabelledRun :: json where
  "unlabelledRun = JObj [(''stage'', JStr ''FINALIZE'')]"

definition blankInputRun :: json where
  "blankInputRun = JObj [(''input'', JStr []), (''stage'', JStr ''FINALIZE'')]"

section \<open>Progress of a batch run\<close>

text \<open>
  The stages that \<^verbatim>\<open>index.js\<close> dispatches on, and the part of Progress the result-detection
  stages work on. A chunk's \<open>status\<close> is the string the code compares (\<^verbatim>\<open>"pending"\<close>,
  \<^verbatim>\<open>"uploaded"\<close>, ...). \<open>progress.publications\<close> is the field \<open>trialPublications\<close> here, apart
  from the \<open>publications\<close> of one trial.
\<close>

datatype stage =
    PREP | QUERY_GEN_UPLOAD | QUERY_GEN_POLL | QUERY_GEN_PROCESS | PUB_DISCOVERY
  | RESULT_GEN_PREPARATION | RESULT_GEN_UPLOAD | RESULT_GEN_POLL | RESULT_GEN_PROCESS
  | FINALIZE | COST_CALCULATION | COMPLETE

record chunk =
  index :: nat
  inputFile :: string
  requestCount :: nat
  estimatedTokens :: nat
  sizeBytes :: nat
  status :: string
  batchId :: "string option"
  inputFileId :: "string option"
  outputFileId :: "string option"
  uploadedAt :: "string option"
  completedAt :: "string option"
  processedAt :: "string option"

record dailyTokens =
  date :: string
  tokens :: nat

record resultDetection =
  chunks :: "chunk list"
  dailyTokensUsed :: dailyTokens
  totalEstimatedTokens :: nat

record progress =
  stage :: stage
  registrations :: "string \<Rightarrow> registration option"
  trialPublications :: "string \<Rightarrow> pubData option"
  resultDetection :: "resultDetection option"

section \<open>Stage RESULT_GEN_PREPARATION (result-gen-preparation.js)\<close>

text \<open>The \<^verbatim>\<open>batch.*\<close> settings the two stages read.\<close>

record config =
  maxRequestsPerBatch :: int
  maxBytesPerBatch :: int
  safetyBuffer :: rat
  maxTokensPerDay :: nat

text \<open>
  What the stage measures of each request is its serialisation: the length of the system
  prompt and of the user prompt (\<^verbatim>\<open>JSON.stringify\<close> of the cleaned registration and the
  publication), and the UTF-8 size of the whole request. These are parameters.
\<close>

record promptEnv =
  systemPromptLength :: nat
  userPromptLength :: "registration \<Rightarrow> publication \<Rightarrow> nat"
  requestJsonBytes :: "registration \<Rightarrow> publication \<Rightarrow> nat"

text \<open>A batch request, by what the packing reads of it.\<close>

record request =
  custom_id :: string
  requestTotalTokens :: nat
  requestBytes :: nat

text \<open>The chunk under construction, \<^verbatim>\<open>{index, requests, tokens, bytes}\<close>.\<close>

record workChunk =
  curIndex :: nat
  curRequests :: "request list"
  curTokens :: nat
  curBytes :: nat

text \<open>
  \<^verbatim>\<open>Math.floor(maxBytesPerBatch * safetyBuffer)\<close>, over the rationals (the double product
  is exact on the configurations used below).
\<close>

definition effectiveMaxBytes :: "config \<Rightarrow> int" where
  "effectiveMaxBytes cfg = \<lfloor>of_int (maxBytesPerBatch cfg) * safetyBuffer cfg\<rfloor>"

text \<open>\<^verbatim>\<open>Math.ceil(n / 4)\<close>.\<close>

definition ceilDiv4 :: "nat \<Rightarrow> nat" where
  "ceilDiv4 n = (n + 3) div 4"

definition buildRequest :: "promptEnv \<Rightarrow> string \<Rightarrow> registration \<Rightarrow> publication \<Rightarrow> request" where
  "buildRequest env tid reg pub =
     \<lparr>custom_id = customId tid pub,
      requestTotalTokens = ceilDiv4 (systemPromptLength env) + ceilDiv4 (userPromptLength env reg pub),
      requestBytes = requestJsonBytes env reg pub\<rparr>"

text \<open>
  The requests of one input row, given the trial id that \<open>extractTrialId\<close> returns for it
  (empty when the row has none): rows without a registration or without publications are
  skipped, and so are publications without a pmid.
\<close>

definition rowRequests :: "promptEnv \<Rightarrow> progress \<Rightarrow> string \<Rightarrow> request list" where
  "rowRequests env p tid =
     (if tid = [] then []
      else (case (registrations p tid, trialPublications p tid) of
              (Some reg, Some pd) \<Rightarrow> map (buildRequest env tid reg) (publicationsWithPmids pd)
            | _ \<Rightarrow> []))"

definition newChunk :: "nat \<Rightarrow> workChunk" where
  "newChunk i = \<lparr>curIndex = i, curRequests = [], curTokens = 0, curBytes = 0\<rparr>"

text \<open>
  One turn of the inner loop. \<open>work\<close> is the array \<^verbatim>\<open>chunks\<close>, whose last element is
  \<^verbatim>\<open>currentChunk\<close>. When the current chunk is full or the request would take it over the
  byte cap, the current chunk is sealed (its file is written) and a new one is pushed;
  then the request is added to the current chunk, whatever its size.
\<close>

definition addRequest :: "config \<Rightarrow> workChunk list \<Rightarrow> request \<Rightarrow> workChunk list" where
  "addRequest cfg work req =
     (let currentChunk = last work;
          work' =
            (if int (length (curRequests currentChunk)) \<ge> maxRequestsPerBatch cfg
                \<or> int (curBytes currentChunk + requestBytes req) > effectiveMaxBytes cfg
             then work @ [newChunk (length work)]
             else work);
          current' = last work'
      in butlast work' @
           [current'\<lparr>curRequests := curRequests current' @ [req],
                     curTokens := curTokens current' + requestTotalTokens req,
                     curBytes := curBytes current' + requestBytes req\<rparr>])"

text \<open>After the loop the last chunk is written if it has requests and popped otherwise.\<close>

definition packRequests :: "config \<Rightarrow> request list \<Rightarrow> workChunk list" where
  "packRequests cfg reqs =
     (let work = foldl (addRequest cfg) [newChunk 0] reqs
      in if curRequests (last work) \<noteq> [] then work else butlast work)"

text \<open>A number in a template string.\<close>

fun showNat :: "nat \<Rightarrow> string" where
  "showNat n = (if n < 10 then [char_of (48 + n)] else showNat (n div 10) @ [char_of (48 + n mod 10)])"

definition chunkMetadata :: "workChunk \<Rightarrow> chunk" where
  "chunkMetadata c =
     \<lparr>index = curIndex c,
      inputFile = ''result_gen_input_chunk_'' @ showNat (curIndex c) @ ''.jsonl'',
      requestCount = length (curRequests c),
      estimatedTokens = curTokens c,
      sizeBytes = curBytes c,
      status = ''pending'',
      batchId = None, inputFileId = None, outputFileId = None,
      uploadedAt = None, completedAt = None, processedAt = None\<rparr>"

text \<open>
  The stage: \<open>rows\<close> are the trial ids of the input rows, \<open>today\<close> is the date of the
  clock. The stage has no \<^verbatim>\<open>throw\<close>.
\<close>

definition stageResultGenPreparation ::
  "config \<Rightarrow> promptEnv \<Rightarrow> string \<Rightarrow> string list \<Rightarrow> progress \<Rightarrow> progress" where
  "stageResultGenPreparation cfg env today rows p =
     (let work = packRequests cfg (concat (map (rowRequests env p) rows));
          chunksMetadata = map chunkMetadata work
      in if work = [] then p\<lparr>stage := FINALIZE\<rparr>
         else p\<lparr>resultDetection :=
                  Some \<lparr>chunks = chunksMetadata,
                        dailyTokensUsed = \<lparr>date = today, tokens = 0\<rparr>,
                        totalEstimatedTokens = sum_list (map estimatedTokens chunksMetadata)\<rparr>,
                stage := RESULT_GEN_UPLOAD\<rparr>)"

text \<open>Index, request count and size of every stored chunk, and a tight configuration.\<close>

definition chunkSizes :: "progress \<Rightarrow> (nat \<times> nat \<times> nat) list" where
  "chunkSizes p =
     (case resultDetection p of
        None \<Rightarrow> []
      | Some rd \<Rightarrow> map (\<lambda>c. (index c, requestCount c, sizeBytes c)) (chunks rd))"

definition tightConfig :: config where
  "tightConfig =
     \<lparr>maxRequestsPerBatch = 2, maxBytesPerBatch = 1000, safetyBuffer = 1 / 2,
      maxTokensPerDay = 100\<rparr>"

definition longAbstract :: publication where
  "longAbstract = (tagged ''111'' [''pubmed_naive''])\<lparr>abstract := Some ''(a long abstract)''\<rparr>"

definition sizedEnv :: promptEnv where
  "sizedEnv =
     \<lparr>systemPromptLength = 40,
      userPromptLength = (\<lambda>reg pub. if pub = longAbstract then 520 else 120),
      requestJsonBytes = (\<lambda>reg pub. if pub = longAbstract then 600 else 200)\<rparr>"

definition startProgress :: "publication list \<Rightarrow> progress" where
  "startProgress pubs =
     \<lparr>stage = RESULT_GEN_PREPARATION,
      registrations = (\<lambda>tid. if tid = ''2007-002931-95'' then Some euctrRegistration else None),
      trialPublications =
        (\<lambda>tid. if tid = ''2007-002931-95''
               then Some \<lparr>publications = pubs, filteredPublications = [], errors = []\<rparr>
               else None),
      resultDetection = None\<rparr>"

text \<open>For the packing invariant: a chunk with one more request, and a chunk within both limits.\<close>

definition withRequest :: "workChunk \<Rightarrow> request \<Rightarrow> workChunk" where
  "withRequest c req =
     c\<lparr>curRequests := curRequests c @ [req],
       curTokens := curTokens c + requestTotalTokens req,
       curBytes := curBytes c + requestBytes req\<rparr>"

definition withinLimits :: "config \<Rightarrow> workChunk \<Rightarrow> bool" where
  "withinLimits cfg c =
     (int (length (curRequests c)) \<le> maxRequestsPerBatch cfg
      \<and> int (curBytes c) \<le> effectiveMaxBytes cfg
      \<and> curBytes c = sum_list (map requestBytes (curRequests c))
      \<and> curTokens c = sum_list (map requestTotalTokens (curRequests c)))"

section \<open>Stage RESULT_GEN_UPLOAD (result-gen-upload.js)\<close>



















section \<open>Properties of the date filters\<close>

lemmas date_eval =
  isoDateTime_def civilTime_def daysFromCivil_def daysInMonth_def isLeapYear_def
  msPerDay_def digitsValue_def digitVal_def isDigit_def

lemmas sample_eval =
  scenarioA_def scenarioB_def scenarioC_def undatable_def candidate_def truthy_def

text \<open>Both loops are two filters over the input, in input order.\<close>

lemma minDate_foldl:
  "foldl (minDateStep newDate c) r ps =
     \<lparr>eligible = eligible r @
        filter (\<lambda>p. case pubTime newDate p of
                      None \<Rightarrow> \<not> truthy (publicationDate p) | Some t \<Rightarrow> c \<le> t) ps,
      filtered = filtered r @
        filter (\<lambda>p. case pubTime newDate p of None \<Rightarrow> False | Some t \<Rightarrow> t < c) ps\<rparr>"
  by (induction ps arbitrary: r)
     (auto simp: minDateStep_def pubTime_def split: option.splits)

lemma maxDate_foldl:
  "foldl (maxDateStep newDate c) r ps =
     \<lparr>eligible = eligible r @
        filter (\<lambda>p. case pubTime newDate p of
                      None \<Rightarrow> \<not> truthy (publicationDate p) | Some t \<Rightarrow> t < c) ps,
      filtered = filtered r @
        filter (\<lambda>p. case pubTime newDate p of None \<Rightarrow> False | Some t \<Rightarrow> c \<le> t) ps\<rparr>"
  by (induction ps arbitrary: r)
     (auto simp: maxDateStep_def pubTime_def split: option.splits)

text \<open>
  C7. For every list of publications and every valid minimum date, \<open>minDateFilter\<close>
  returns a pair \<open>{eligible, filtered}\<close> (it does not throw, whatever dates are missing);
  no publication whose date parses to a valid time earlier than the minimum date is in
  \<open>eligible\<close>; every publication with a missing date is in \<open>eligible\<close>. In addition
  \<open>eligible\<close> holds input entries only, and \<open>filtered\<close> holds exactly the entries dated
  before the minimum date.
\<close>

theorem minDateFilter_gate:
  assumes "minDate \<noteq> []" and "newDate minDate = Some cutoff"
  shows "\<exists>r. minDateFilter newDate pubs minDate = Inr r
           \<and> (\<forall>p \<in> set (eligible r). \<forall>t. pubTime newDate p = Some t \<longrightarrow> \<not> t < cutoff)
           \<and> (\<forall>p \<in> set pubs. \<not> truthy (publicationDate p) \<longrightarrow> p \<in> set (eligible r))
           \<and> set (eligible r) \<subseteq> set pubs
           \<and> set (filtered r) = {p \<in> set pubs. \<exists>t. pubTime newDate p = Some t \<and> t < cutoff}"
  using assms
  by (auto simp: minDateFilter_def minDate_foldl pubTime_def split: option.splits)

text \<open>
  The spec's scenario: start date 2010-01-01 and candidates A (2009-12), B (2012) and
  C (no date) leave B and C eligible.
\<close>

theorem minDateFilter_gate_witness:
  "isoDateTime ''2010-01-01'' = Some 1262304000000
   \<and> minDateFilter isoDateTime [scenarioA, scenarioB, scenarioC] ''2010-01-01''
       = Inr \<lparr>eligible = [scenarioB, scenarioC], filtered = [scenarioA]\<rparr>
   \<and> (\<exists>r. minDateFilter isoDateTime [scenarioA, scenarioB, scenarioC] ''2010-01-01'' = Inr r
          \<and> scenarioA \<notin> set (eligible r) \<and> scenarioC \<in> set (eligible r))"
proof -
  have t: "isoDateTime ''2010-01-01'' = Some 1262304000000"
    by (simp add: date_eval)
  have ne: "''2010-01-01'' \<noteq> []" by simp
  have a: "pubTime isoDateTime scenarioA = Some 1259625600000"
    by (simp add: pubTime_def sample_eval date_eval)
  have run: "minDateFilter isoDateTime [scenarioA, scenarioB, scenarioC] ''2010-01-01''
       = Inr \<lparr>eligible = [scenarioB, scenarioC], filtered = [scenarioA]\<rparr>"
    by (simp add: minDateFilter_def minDateStep_def sample_eval date_eval)
  from minDateFilter_gate [where newDate = isoDateTime and minDate = "''2010-01-01''"
      and cutoff = 1262304000000 and pubs = "[scenarioA, scenarioB, scenarioC]", OF ne t]
  obtain r where r: "minDateFilter isoDateTime [scenarioA, scenarioB, scenarioC] ''2010-01-01'' = Inr r"
    and el: "\<forall>p \<in> set (eligible r). \<forall>t. pubTime isoDateTime p = Some t \<longrightarrow> \<not> t < 1262304000000"
    and un: "\<forall>p \<in> set [scenarioA, scenarioB, scenarioC].
               \<not> truthy (publicationDate p) \<longrightarrow> p \<in> set (eligible r)"
    by blast
  from el a have "scenarioA \<notin> set (eligible r)" by fastforce
  moreover from un have "scenarioC \<in> set (eligible r)"
    by (simp add: sample_eval)
  ultimately show ?thesis using t run r by blast
qed

text \<open>
  C8, as the code has it. For every publication whose date is a non-empty string that
  does not parse to a valid date, both filters skip the entry (the \<^verbatim>\<open>continue\<close> under
  "Skip publications with invalid dates"): it is in neither \<open>eligible\<close> nor \<open>filtered\<close>
  of \<open>maxDateFilter\<close>, and in neither \<open>eligible\<close> nor \<open>filtered\<close> of \<open>minDateFilter\<close>.
\<close>

theorem invalidDate_skipped_by_both_filters:
  assumes "maxDate \<noteq> []" and "newDate maxDate = Some cmax"
    and "minDate \<noteq> []" and "newDate minDate = Some cmin"
    and "invalidDate newDate p"
  shows "\<exists>rmax rmin. maxDateFilter newDate pubs maxDate = Inr rmax
           \<and> minDateFilter newDate pubs minDate = Inr rmin
           \<and> p \<notin> set (eligible rmax) \<and> p \<notin> set (filtered rmax)
           \<and> p \<notin> set (eligible rmin) \<and> p \<notin> set (filtered rmin)"
  using assms
  by (auto simp: maxDateFilter_def minDateFilter_def maxDate_foldl minDate_foldl
        pubTime_def invalidDate_def split: option.splits)

theorem invalidDate_skipped_by_both_filters_witness:
  "invalidDate isoDateTime undatable
   \<and> isoDateTime ''2023-02-15'' = Some 1676419200000
   \<and> isoDateTime ''2010-01-01'' = Some 1262304000000
   \<and> (\<exists>rmax rmin. maxDateFilter isoDateTime [scenarioB, undatable] ''2023-02-15'' = Inr rmax
          \<and> minDateFilter isoDateTime [scenarioB, undatable] ''2010-01-01'' = Inr rmin
          \<and> undatable \<notin> set (eligible rmax) \<and> undatable \<notin> set (filtered rmax)
          \<and> undatable \<notin> set (eligible rmin) \<and> undatable \<notin> set (filtered rmin))"
proof -
  have inv: "invalidDate isoDateTime undatable"
    by (simp add: invalidDate_def sample_eval date_eval)
  have tmax: "isoDateTime ''2023-02-15'' = Some 1676419200000"
    by (simp add: date_eval)
  have tmin: "isoDateTime ''2010-01-01'' = Some 1262304000000"
    by (simp add: date_eval)
  have ne1: "''2023-02-15'' \<noteq> []" and ne2: "''2010-01-01'' \<noteq> []"
    by simp_all
  from invalidDate_skipped_by_both_filters [where newDate = isoDateTime
      and maxDate = "''2023-02-15''" and minDate = "''2010-01-01''"
      and pubs = "[scenarioB, undatable]", OF ne1 tmax ne2 tmin inv]
  show ?thesis using inv tmax tmin by blast
qed

text \<open>
  The claim as the spec states it (the min filter retains such an entry in \<open>eligible\<close>)
  fails: the min filter returns the entry in neither list.
\<close>

theorem minDateFilter_retains_invalid_counterexample:
  "invalidDate isoDateTime undatable
   \<and> minDateFilter isoDateTime [undatable] ''2010-01-01''
       = Inr \<lparr>eligible = [], filtered = []\<rparr>"
  by (simp add: invalidDate_def minDateFilter_def minDateStep_def sample_eval date_eval)

section \<open>Properties of the deduplication\<close>

lemma set_spreadSet_aux:
  "set (foldl (\<lambda>acc x. if x \<in> set acc then acc else acc @ [x]) a xs) = set a \<union> set xs"
  by (induction xs arbitrary: a) auto

lemma set_spreadSet: "set (spreadSet xs) = set xs"
  by (simp add: spreadSet_def set_spreadSet_aux)

lemma map_of_setKey: "map_of (setKey k v kvs) = (map_of kvs)(k \<mapsto> v)"
  by (induction kvs) (auto simp: fun_eq_iff)

lemma keys_setKey:
  "map fst (setKey k v kvs) = (if k \<in> fst ` set kvs then map fst kvs else map fst kvs @ [k])"
  by (induction kvs) auto

lemma setKey_fresh: "k \<notin> fst ` set kvs \<Longrightarrow> setKey k v kvs = kvs @ [(k, v)]"
  by (induction kvs) auto

lemma digits_not_prototype_key:
  assumes "list_all isDigit k" and "k \<noteq> []"
  shows "k \<notin> set objectPrototypeKeys"
proof
  assume "k \<in> set objectPrototypeKeys"
  then have "hd k \<in> set ''c_hiptv''"
    unfolding objectPrototypeKeys_def by (elim set_ConsD [elim_format] disjE) simp_all
  moreover from assms have "isDigit (hd k)" by (cases k) simp_all
  ultimately show False by (auto simp: isDigit_def)
qed

lemma mergedSources_snoc:
  "mergedSources (seen @ [p]) k =
     (if pmid p = Some k then mergedSources seen k \<union> set (sources p) else mergedSources seen k)"
  by (auto simp: mergedSources_def)

lemma dedupStep_inv:
  assumes "hasPmid p" and "dedupInv obj seen"
  shows "\<exists>obj'. dedupStep obj p = Inr obj' \<and> dedupInv obj' (seen @ [p])"
proof -
  from assms(1) obtain k where k: "pmid p = Some k" "k \<noteq> []" "list_all isDigit k"
    by (auto simp: hasPmid_def truthy_def split: option.splits)
  then have nk: "k \<notin> set objectPrototypeKeys" by (simp add: digits_not_prototype_key)
  have tr: "truthy (pmid p)" using k by (simp add: truthy_def)
  show ?thesis
  proof (cases "map_of obj k")
    case None
    then have fresh: "k \<notin> fst ` set obj" by (simp add: map_of_eq_None_iff)
    have st: "dedupStep obj p = Inr (obj @ [(k, p)])"
      using k nk tr None fresh by (simp add: dedupStep_def setKey_fresh)
    have "mergedSources seen k = {}"
    proof -
      from assms(2) fresh have "\<not> (\<exists>q \<in> set seen. pmid q = Some k)"
        by (auto simp: dedupInv_def)
      then show ?thesis by (auto simp: mergedSources_def)
    qed
    note ms = this
    have d: "distinct (map fst (obj @ [(k, p)]))"
      using assms(2) fresh by (simp add: dedupInv_def)
    have ks: "set (map fst (obj @ [(k, p)])) = {k'. \<exists>q \<in> set (seen @ [p]). pmid q = Some k'}"
      using assms(2) k by (auto simp: dedupInv_def)
    have es: "pmid e = Some k' \<and> set (sources e) = mergedSources (seen @ [p]) k'"
      if "map_of (obj @ [(k, p)]) k' = Some e" for k' e
    proof (cases "k' = k")
      case True
      with that None have "e = p" by (simp add: map_add_Some_iff)
      with True k ms show ?thesis by (simp add: mergedSources_snoc)
    next
      case False
      with that have "map_of obj k' = Some e" by (simp add: map_add_Some_iff)
      with assms(2) False k show ?thesis by (simp add: dedupInv_def mergedSources_snoc)
    qed
    from d ks es have "dedupInv (obj @ [(k, p)]) (seen @ [p])"
      unfolding dedupInv_def by blast
    with st show ?thesis by blast
  next
    case (Some found)
    let ?e = "found\<lparr>sources := spreadSet (sources p @ sources found)\<rparr>"
    have st: "dedupStep obj p = Inr (setKey k ?e obj)"
      using k nk tr Some by (simp add: dedupStep_def)
    from Some have kin: "k \<in> fst ` set obj"
      by (auto dest: map_of_SomeD intro: rev_image_eqI)
    from assms(2) Some have f: "pmid found = Some k" "set (sources found) = mergedSources seen k"
      by (auto simp: dedupInv_def)
    have "dedupInv (setKey k ?e obj) (seen @ [p])"
      using assms(2) kin k f
      by (auto simp: dedupInv_def keys_setKey map_of_setKey mergedSources_snoc set_spreadSet)
    with st show ?thesis by blast
  qed
qed

lemma reducePublications_inv:
  assumes "\<forall>p \<in> set xs. hasPmid p" and "dedupInv obj seen"
  shows "\<exists>obj'. reducePublications obj xs = Inr obj' \<and> dedupInv obj' (seen @ xs)"
  using assms
proof (induction xs arbitrary: obj seen)
  case Nil
  then show ?case by simp
next
  case (Cons x xs)
  from Cons.prems obtain obj1 where s: "dedupStep obj x = Inr obj1"
    and i: "dedupInv obj1 (seen @ [x])"
    using dedupStep_inv [of x obj seen] by auto
  from Cons.IH [of obj1 "seen @ [x]"] Cons.prems i
  obtain obj' where "reducePublications obj1 xs = Inr obj'" "dedupInv obj' ((seen @ [x]) @ xs)"
    by auto
  with s show ?case by simp
qed

lemma distinct_map_Some: "distinct xs \<Longrightarrow> distinct (map Some xs)"
  by (simp add: distinct_map)

lemma mset_ownEntries: "mset (ownEntries obj) = mset obj"
  by (simp add: ownEntries_def)

lemma set_ownEntries: "set (ownEntries obj) = set obj"
  by (auto simp: ownEntries_def)

lemma distinct_keys_ownEntries:
  "distinct (map fst (ownEntries obj)) = distinct (map fst obj)"
proof -
  have "mset (map fst (ownEntries obj)) = mset (map fst obj)"
    by (metis mset_map mset_ownEntries)
  then show ?thesis by (rule mset_eq_imp_distinct_iff)
qed

lemma ownEntries_idem: "ownEntries (ownEntries obj) = ownEntries obj"
proof -
  let ?f = "\<lambda>kv :: string \<times> 'a. digitsValue (fst kv)"
  let ?P = "\<lambda>kv :: string \<times> 'a. isArrayIndex (fst kv)"
  let ?A = "sort_key ?f (filter ?P obj)"
  let ?B = "filter (\<lambda>kv. \<not> ?P kv) obj"
  have a: "filter ?P ?A = ?A" by (simp add: filter_sort)
  have b: "filter ?P ?B = []" by simp
  have c: "filter (\<lambda>kv. \<not> ?P kv) ?A = []" by (simp add: filter_sort)
  have d: "filter (\<lambda>kv. \<not> ?P kv) ?B = ?B" by simp
  have e: "sort_key ?f ?A = ?A" by (rule sort_key_id_if_sorted) simp
  show ?thesis
    unfolding ownEntries_def filter_append a b c d using e by simp
qed

lemma reducePublications_distinct:
  assumes "\<forall>p \<in> set xs. hasPmid p"
    and "distinct (map pmid xs)"
    and "\<forall>p \<in> set xs. the (pmid p) \<notin> fst ` set obj"
  shows "reducePublications obj xs = Inr (obj @ map (\<lambda>p. (the (pmid p), p)) xs)"
  using assms
proof (induction xs arbitrary: obj)
  case Nil
  then show ?case by simp
next
  case (Cons x xs)
  from Cons.prems(1) obtain k where k: "pmid x = Some k" "k \<noteq> []" "list_all isDigit k"
    by (auto simp: hasPmid_def truthy_def split: option.splits)
  then have nk: "k \<notin> set objectPrototypeKeys" by (simp add: digits_not_prototype_key)
  from Cons.prems(3) k have fresh: "k \<notin> fst ` set obj" by simp
  then have none: "map_of obj k = None" by (simp add: map_of_eq_None_iff)
  have st: "dedupStep obj x = Inr (obj @ [(k, x)])"
    using k nk none fresh by (simp add: dedupStep_def truthy_def setKey_fresh)
  have "\<forall>p \<in> set xs. the (pmid p) \<notin> fst ` set (obj @ [(k, x)])"
  proof
    fix p assume p: "p \<in> set xs"
    with Cons.prems(1) obtain k' where k': "pmid p = Some k'"
      by (auto simp: hasPmid_def truthy_def split: option.splits)
    have "pmid p \<noteq> pmid x"
    proof
      assume "pmid p = pmid x"
      with p have "pmid x \<in> pmid ` set xs" by (metis imageI)
      with Cons.prems(2) show False by simp
    qed
    with k k' have "k' \<noteq> k" by simp
    from Cons.prems(3) p have "the (pmid p) \<notin> fst ` set obj" by simp
    with k' \<open>k' \<noteq> k\<close> show "the (pmid p) \<notin> fst ` set (obj @ [(k, x)])" by simp
  qed
  with Cons.IH [of "obj @ [(k, x)]"] Cons.prems(1,2)
  have "reducePublications (obj @ [(k, x)]) xs
          = Inr ((obj @ [(k, x)]) @ map (\<lambda>p. (the (pmid p), p)) xs)"
    by simp
  with st k show ?case by simp
qed

text \<open>
  C6. For every list of publications in which each entry has a pmid,
  \<open>removeDuplicatePublications\<close> returns a list in which every PMID of the input occurs
  exactly once, the sources of each returned entry are the union of the sources of all
  input entries with that PMID, and applying the function to its own output returns the
  same publications (here even in the same order).
\<close>

theorem removeDuplicatePublications_merges:
  assumes "\<forall>p \<in> set pubs. hasPmid p"
  shows "\<exists>out. removeDuplicatePublications pubs = Inr out
           \<and> distinct (map pmid out)
           \<and> set (map pmid out) = set (map pmid pubs)
           \<and> (\<forall>e \<in> set out.
                 set (sources e) = (\<Union>p \<in> {p \<in> set pubs. pmid p = pmid e}. set (sources p)))
           \<and> removeDuplicatePublications out = Inr out"
proof -
  have init: "dedupInv [] []" by (simp add: dedupInv_def)
  from reducePublications_inv [OF assms init]
  obtain u where u: "reducePublications [] pubs = Inr u" and inv: "dedupInv u pubs"
    by auto
  let ?out = "objectValues u"
  have run: "removeDuplicatePublications pubs = Inr ?out"
    by (simp add: removeDuplicatePublications_def u)
  from inv have du: "distinct (map fst u)"
    and keys: "set (map fst u) = {k. \<exists>p \<in> set pubs. pmid p = Some k}"
    and ent: "\<And>k e. (k, e) \<in> set u \<Longrightarrow>
                pmid e = Some k \<and> set (sources e) = mergedSources pubs k"
    by (auto simp: dedupInv_def)
  have pm: "map (\<lambda>p. (the (pmid p), p)) ?out = ownEntries u"
    unfolding objectValues_def map_map
    by (rule map_idI) (auto simp: set_ownEntries dest: ent)
  have pmids: "map pmid ?out = map (Some \<circ> fst) (ownEntries u)"
    unfolding objectValues_def map_map
    by (rule map_cong) (auto simp: set_ownEntries dest: ent)
  have d: "distinct (map pmid ?out)"
  proof -
    from du have "distinct (map fst (ownEntries u))"
      by (simp add: distinct_keys_ownEntries)
    then have "distinct (map Some (map fst (ownEntries u)))"
      by (rule distinct_map_Some)
    then show ?thesis unfolding pmids by (simp only: map_map)
  qed
  have somes: "\<And>p. p \<in> set pubs \<Longrightarrow> \<exists>k. pmid p = Some k"
    using assms by (auto simp: hasPmid_def truthy_def split: option.splits)
  have s: "set (map pmid ?out) = set (map pmid pubs)"
  proof -
    have "set (map pmid ?out) = Some ` set (map fst u)"
      unfolding pmids by (simp add: set_ownEntries image_image)
    also have "\<dots> = set (map pmid pubs)"
      unfolding keys using somes by force
    finally show ?thesis .
  qed
  have m: "\<forall>e \<in> set ?out.
             set (sources e) = (\<Union>p \<in> {p \<in> set pubs. pmid p = pmid e}. set (sources p))"
  proof
    fix e assume "e \<in> set ?out"
    then obtain k where "(k, e) \<in> set u"
      by (auto simp: objectValues_def set_ownEntries)
    from ent [OF this] show "set (sources e)
        = (\<Union>p \<in> {p \<in> set pubs. pmid p = pmid e}. set (sources p))"
      by (simp add: mergedSources_def)
  qed
  have hp: "\<forall>e \<in> set ?out. hasPmid e"
  proof
    fix e assume "e \<in> set ?out"
    then obtain k where ke: "(k, e) \<in> set u"
      by (auto simp: objectValues_def set_ownEntries)
    then have "k \<in> set (map fst u)" by force
    with keys obtain p where "p \<in> set pubs" "pmid p = Some k" by auto
    with assms ent [OF ke] show "hasPmid e" by (auto simp: hasPmid_def)
  qed
  have "reducePublications [] ?out = Inr ([] @ map (\<lambda>p. (the (pmid p), p)) ?out)"
    by (rule reducePublications_distinct) (use hp d in simp_all)
  then have "removeDuplicatePublications ?out = Inr (objectValues (ownEntries u))"
    by (simp add: removeDuplicatePublications_def pm)
  then have i: "removeDuplicatePublications ?out = Inr ?out"
    by (simp add: objectValues_def ownEntries_idem)
  from run d s m i show ?thesis by blast
qed

lemmas dedup_eval =
  removeDuplicatePublications_def dedupStep_def objectValues_def ownEntries_def
  isArrayIndex_def spreadSet_def objectPrototypeKeys_def dups_def tagged_def
  candidate_def truthy_def digitsValue_def digitVal_def isDigit_def hasPmid_def Let_def

theorem removeDuplicatePublications_merges_witness:
  "list_all hasPmid dups
   \<and> removeDuplicatePublications dups
       = Inr [tagged ''222'' [''google_scholar''],
              tagged ''333'' [''linked_at_registration'', ''pubmed_naive'']]
   \<and> (\<exists>out. removeDuplicatePublications dups = Inr out \<and> distinct (map pmid out)
          \<and> set (map pmid out) = set (map pmid dups)
          \<and> removeDuplicatePublications out = Inr out)"
proof -
  have h: "\<forall>p \<in> set dups. hasPmid p"
    by (simp add: dedup_eval)
  have run: "removeDuplicatePublications dups
       = Inr [tagged ''222'' [''google_scholar''],
              tagged ''333'' [''linked_at_registration'', ''pubmed_naive'']]"
    by (simp add: dedup_eval)
  from removeDuplicatePublications_merges [OF h] h run show ?thesis
    by (auto simp: list_all_iff)
qed

section \<open>Properties of the summary\<close>













section \<open>Properties of the discovery engine\<close>

lemma find_unknown_None:
  "(\<forall>name \<in> set strategies. searchFunctions name \<noteq> None) \<Longrightarrow>
     find (\<lambda>strategyName. searchFunctions strategyName = None) strategies = None"
  by (simp add: find_None_iff)

text \<open>
  C9, as the code has it. For every registration and every list of enabled (known)
  strategies, \<open>discoverPublications\<close> returns; a strategy that throws an error (with a
  non-empty message) is recorded in the returned errors as
  \<^verbatim>\<open>{results: [], fn, error}\<close> where \<open>fn\<close> is the name of the strategy's function and \<open>error\<close>
  the message; the candidates of every strategy that returns are all returned, whatever
  the other strategies do; and every returned candidate has \<open>sources = [name]\<close> for the
  strategy name it came from.
\<close>

theorem discoverPublications_isolates_failures:
  assumes "\<forall>name \<in> set strategies. searchFunctions name \<noteq> None"
  shows "\<exists>d. discoverPublications searchFunctions reg strategies = Inr d
           \<and> (\<forall>name \<in> set strategies. \<forall>st msg.
                 searchFunctions name = Some st \<and> run st reg = Throws msg \<and> msg \<noteq> [] \<longrightarrow>
                   \<lparr>results = [], fn = fnName st, error = Some msg\<rparr> \<in> set (discoveryErrors d))
           \<and> (\<forall>name \<in> set strategies. \<forall>st rs err.
                 searchFunctions name = Some st \<and> run st reg = Returns rs err \<longrightarrow>
                   (\<forall>c \<in> set rs. c\<lparr>sources := [name]\<rparr> \<in> set (discoveredPublications d)))
           \<and> (\<forall>p \<in> set (discoveredPublications d).
                 \<exists>name \<in> set strategies. \<exists>st rs err c.
                   searchFunctions name = Some st \<and> run st reg = Returns rs err
                   \<and> c \<in> set rs \<and> p = c\<lparr>sources := [name]\<rparr> \<and> sources p = [name])"
proof -
  let ?sr = "map (\<lambda>strategyName. wrapStrategy strategyName (the (searchFunctions strategyName)) reg)
               strategies"
  let ?d = "\<lparr>discoveredPublications = concat (map results ?sr),
            discoveryErrors = filter (\<lambda>s. truthy (error s)) ?sr\<rparr>"
  have run: "discoverPublications searchFunctions reg strategies = Inr ?d"
    using assms by (simp add: discoverPublications_def find_unknown_None)
  have a: "\<lparr>results = [], fn = fnName st, error = Some msg\<rparr> \<in> set (discoveryErrors ?d)"
    if "name \<in> set strategies" "searchFunctions name = Some st" "run st reg = Throws msg"
       "msg \<noteq> []" for name st msg
  proof -
    from that have "wrapStrategy name (the (searchFunctions name)) reg
        = \<lparr>results = [], fn = fnName st, error = Some msg\<rparr>"
      by (simp add: wrapStrategy_def)
    with that(1,4) show ?thesis by (force simp: truthy_def)
  qed
  have b: "c\<lparr>sources := [name]\<rparr> \<in> set (discoveredPublications ?d)"
    if "name \<in> set strategies" "searchFunctions name = Some st" "run st reg = Returns rs err"
       "c \<in> set rs" for name st rs err c
  proof -
    from that have "c\<lparr>sources := [name]\<rparr>
        \<in> set (results (wrapStrategy name (the (searchFunctions name)) reg))"
      by (simp add: wrapStrategy_def)
    with that(1) show ?thesis by auto
  qed
  have c: "\<exists>name \<in> set strategies. \<exists>st rs err c.
                   searchFunctions name = Some st \<and> run st reg = Returns rs err
                   \<and> c \<in> set rs \<and> p = c\<lparr>sources := [name]\<rparr> \<and> sources p = [name]"
    if "p \<in> set (discoveredPublications ?d)" for p
  proof -
    from that obtain name where n: "name \<in> set strategies"
      and p: "p \<in> set (results (wrapStrategy name (the (searchFunctions name)) reg))"
      by auto
    from n assms obtain st where st: "searchFunctions name = Some st" by auto
    show ?thesis
    proof (cases "run st reg")
      case (Throws msg)
      with p st show ?thesis by (simp add: wrapStrategy_def)
    next
      case (Returns rs err)
      with p st obtain c where "c \<in> set rs" "p = c\<lparr>sources := [name]\<rparr>"
        by (auto simp: wrapStrategy_def)
      with n st Returns show ?thesis by auto
    qed
  qed
  from run a b c show ?thesis by blast
qed

lemmas discovery_eval =
  discoverPublications_def wrapStrategy_def SEARCH_FUNCTIONS_def searchLinkedAtRegistration_def
  searchPubmedNaive_def pubmedDown_def euctrRegistration_def hit_def truthy_def Let_def

theorem discoverPublications_isolates_failures_witness:
  "list_all (\<lambda>name. SEARCH_FUNCTIONS pubmedDown name \<noteq> None)
      [''linked_at_registration'', ''pubmed_naive'']
   \<and> discoverPublications (SEARCH_FUNCTIONS pubmedDown) (Some euctrRegistration)
        [''linked_at_registration'', ''pubmed_naive'']
       = Inr \<lparr>discoveredPublications =
                [(hit (Some ''555''))\<lparr>sources := [''linked_at_registration'']\<rparr>,
                 (hit (Some ''666''))\<lparr>sources := [''linked_at_registration'']\<rparr>],
              discoveryErrors =
                [\<lparr>results = [], fn = ''searchPubmedNaive'',
                  error = Some ''PubMed naive search failed: Request failed with status code 429''\<rparr>]\<rparr>
   \<and> (\<exists>d. discoverPublications (SEARCH_FUNCTIONS pubmedDown) (Some euctrRegistration)
             [''linked_at_registration'', ''pubmed_naive''] = Inr d
          \<and> \<lparr>results = [], fn = ''searchPubmedNaive'',
               error = Some ''PubMed naive search failed: Request failed with status code 429''\<rparr>
              \<in> set (discoveryErrors d)
          \<and> (hit (Some ''555''))\<lparr>sources := [''linked_at_registration'']\<rparr>
              \<in> set (discoveredPublications d))"
proof -
  let ?fs = "SEARCH_FUNCTIONS pubmedDown"
  let ?names = "[''linked_at_registration'', ''pubmed_naive'']"
  let ?naive = "\<lparr>fnName = ''searchPubmedNaive'', run = searchPubmedNaive pubmedDown\<rparr>"
  let ?linked = "\<lparr>fnName = ''searchLinkedAtRegistration'', run = searchLinkedAtRegistration\<rparr>"
  have known: "\<forall>name \<in> set ?names. ?fs name \<noteq> None"
    by (simp add: SEARCH_FUNCTIONS_def)
  have la: "list_all (\<lambda>name. ?fs name \<noteq> None) ?names"
    by (simp add: SEARCH_FUNCTIONS_def)
  have run: "discoverPublications ?fs (Some euctrRegistration) ?names
       = Inr \<lparr>discoveredPublications =
                [(hit (Some ''555''))\<lparr>sources := [''linked_at_registration'']\<rparr>,
                 (hit (Some ''666''))\<lparr>sources := [''linked_at_registration'']\<rparr>],
              discoveryErrors =
                [\<lparr>results = [], fn = ''searchPubmedNaive'',
                  error = Some ''PubMed naive search failed: Request failed with status code 429''\<rparr>]\<rparr>"
    by (simp add: discovery_eval)
  have n1: "?fs ''pubmed_naive'' = Some ?naive"
    by (simp add: SEARCH_FUNCTIONS_def)
  have n2: "run ?naive (Some euctrRegistration)
       = Throws ''PubMed naive search failed: Request failed with status code 429''"
    by (simp add: searchPubmedNaive_def pubmedDown_def)
  have l1: "?fs ''linked_at_registration'' = Some ?linked"
    by (simp add: SEARCH_FUNCTIONS_def)
  have l2: "run ?linked (Some euctrRegistration)
       = Returns [hit (Some ''555''), hit (Some ''666'')] None"
    by (simp add: searchLinkedAtRegistration_def euctrRegistration_def)
  from discoverPublications_isolates_failures [OF known, of "Some euctrRegistration"]
  obtain d where d: "discoverPublications ?fs (Some euctrRegistration) ?names = Inr d"
    and thr: "\<forall>name \<in> set ?names. \<forall>st msg.
                 ?fs name = Some st \<and> run st (Some euctrRegistration) = Throws msg \<and> msg \<noteq> [] \<longrightarrow>
                   \<lparr>results = [], fn = fnName st, error = Some msg\<rparr> \<in> set (discoveryErrors d)"
    and ret: "\<forall>name \<in> set ?names. \<forall>st rs err.
                 ?fs name = Some st \<and> run st (Some euctrRegistration) = Returns rs err \<longrightarrow>
                   (\<forall>c \<in> set rs. c\<lparr>sources := [name]\<rparr> \<in> set (discoveredPublications d))"
    by blast
  from thr n1 n2
  have e: "\<lparr>results = [], fn = ''searchPubmedNaive'',
             error = Some ''PubMed naive search failed: Request failed with status code 429''\<rparr>
            \<in> set (discoveryErrors d)"
    by fastforce
  from ret l1 l2
  have p: "(hit (Some ''555''))\<lparr>sources := [''linked_at_registration'']\<rparr>
            \<in> set (discoveredPublications d)"
    by fastforce
  from d e p have ex: "\<exists>d. discoverPublications ?fs (Some euctrRegistration) ?names = Inr d
          \<and> \<lparr>results = [], fn = ''searchPubmedNaive'',
               error = Some ''PubMed naive search failed: Request failed with status code 429''\<rparr>
              \<in> set (discoveryErrors d)
          \<and> (hit (Some ''555''))\<lparr>sources := [''linked_at_registration'']\<rparr>
              \<in> set (discoveredPublications d)"
    by (intro exI conjI)
  show ?thesis by (intro conjI) (rule la run ex)+
qed

text \<open>
  The claim as the spec states it (\<open>fn\<close> is the strategy identifier) fails: the error of
  the strategy \<^verbatim>\<open>pubmed_naive\<close> is recorded under the function name \<^verbatim>\<open>searchPubmedNaive\<close>.
\<close>

theorem discoverPublications_fn_counterexample:
  "discoverPublications (SEARCH_FUNCTIONS pubmedDown) None [''pubmed_naive'']
     = Inr \<lparr>discoveredPublications = [],
            discoveryErrors =
              [\<lparr>results = [], fn = ''searchPubmedNaive'',
                error = Some ''searchPubmedNaive failed, null registration''\<rparr>]\<rparr>
   \<and> ''searchPubmedNaive'' \<noteq> ''pubmed_naive''"
  by (simp add: discovery_eval)

section \<open>Properties of loading the progress file\<close>

lemma member_JObj: "member (JObj kvs) k = map_of (rev kvs) k"
  by (simp add: member_def)

lemma member_resumedProgress:
  assumes k: "k \<in> set storedKeys" and t: "truthyJ (member parsed k)"
  shows "member (resumedProgress parsed inputPath now) k = member parsed k"
proof -
  from t obtain v where v: "member parsed k = Some v"
    by (cases "member parsed k") (simp_all add: truthyJ_def)
  from k consider "k = ''stage''" | "k = ''batchJobs''" | "k = ''rows''"
    | "k = ''registrations''" | "k = ''publications''" | "k = ''skippedCounts''"
    | "k = ''startedAt''"
    unfolding storedKeys_def by (elim set_ConsD [elim_format] disjE) simp_all
  then show ?thesis
  proof cases
    case 1
    with t v show ?thesis by (simp add: resumedProgress_def member_JObj orElse_def)
  next
    case 2
    with t v show ?thesis by (simp add: resumedProgress_def member_JObj orElse_def)
  next
    case 3
    with t v show ?thesis by (simp add: resumedProgress_def member_JObj orElse_def)
  next
    case 4
    with t v show ?thesis by (simp add: resumedProgress_def member_JObj orElse_def)
  next
    case 5
    with t v show ?thesis by (simp add: resumedProgress_def member_JObj orElse_def)
  next
    case 6
    with t v show ?thesis by (simp add: resumedProgress_def member_JObj orElse_def)
  next
    case 7
    with t v show ?thesis by (simp add: resumedProgress_def member_JObj orElse_def)
  qed
qed

text \<open>
  C10, as the code has it. \<open>loadProgress\<close> returns a fresh progress (stage \<^verbatim>\<open>PREP\<close>, empty
  registrations, publications, rows and batchJobs) when the file is absent, cannot be
  read or parsed, holds \<^verbatim>\<open>null\<close>, or records a non-empty input path other than the current
  one. In every other case it resumes: each stored field that is truthy is kept, and the
  input is the current path. That includes a stored progress whose input is missing or
  empty.
\<close>

theorem loadProgress_resume_or_fresh:
  "(file = Absent \<or> file = Unreadable \<or> file = Parsed JNull
      \<or> (\<exists>parsed. file = Parsed parsed \<and> truthyJ (member parsed ''input'')
             \<and> member parsed ''input'' \<noteq> Some (JStr inputPath))
     \<longrightarrow> loadProgress file inputPath now = freshProgress inputPath now)
   \<and> (\<forall>parsed. file = Parsed parsed \<and> parsed \<noteq> JNull
          \<and> (\<not> truthyJ (member parsed ''input'')
               \<or> member parsed ''input'' = Some (JStr inputPath))
        \<longrightarrow> (loadProgress file inputPath now = resumedProgress parsed inputPath now
           \<and> member (loadProgress file inputPath now) ''input'' = Some (JStr inputPath)
           \<and> (\<forall>k \<in> set storedKeys. truthyJ (member parsed k) \<longrightarrow>
                 member (loadProgress file inputPath now) k = member parsed k)))
   \<and> member (freshProgress inputPath now) ''stage'' = Some (JStr STAGES_PREP)
   \<and> member (freshProgress inputPath now) ''registrations'' = Some (JObj [])
   \<and> member (freshProgress inputPath now) ''publications'' = Some (JObj [])
   \<and> member (freshProgress inputPath now) ''rows'' = Some (JObj [])
   \<and> member (freshProgress inputPath now) ''batchJobs'' = Some (JObj [])"
proof -
  have fresh: "loadProgress file inputPath now = freshProgress inputPath now"
    if "file = Absent \<or> file = Unreadable \<or> file = Parsed JNull
      \<or> (\<exists>parsed. file = Parsed parsed \<and> truthyJ (member parsed ''input'')
             \<and> member parsed ''input'' \<noteq> Some (JStr inputPath))"
    using that by (auto simp: loadProgress_def)
  have resume: "loadProgress file inputPath now = resumedProgress parsed inputPath now
           \<and> member (loadProgress file inputPath now) ''input'' = Some (JStr inputPath)
           \<and> (\<forall>k \<in> set storedKeys. truthyJ (member parsed k) \<longrightarrow>
                 member (loadProgress file inputPath now) k = member parsed k)"
    if "file = Parsed parsed \<and> parsed \<noteq> JNull
          \<and> (\<not> truthyJ (member parsed ''input'')
               \<or> member parsed ''input'' = Some (JStr inputPath))" for parsed
  proof -
    from that have l: "loadProgress file inputPath now = resumedProgress parsed inputPath now"
      by (auto simp: loadProgress_def)
    have "member (resumedProgress parsed inputPath now) ''input'' = Some (JStr inputPath)"
      by (simp add: resumedProgress_def member_JObj)
    with l show ?thesis by (simp add: member_resumedProgress)
  qed
  have f: "member (freshProgress inputPath now) ''stage'' = Some (JStr STAGES_PREP)"
    "member (freshProgress inputPath now) ''registrations'' = Some (JObj [])"
    "member (freshProgress inputPath now) ''publications'' = Some (JObj [])"
    "member (freshProgress inputPath now) ''rows'' = Some (JObj [])"
    "member (freshProgress inputPath now) ''batchJobs'' = Some (JObj [])"
    by (simp_all add: freshProgress_def member_JObj)
  have A: "file = Absent \<or> file = Unreadable \<or> file = Parsed JNull
      \<or> (\<exists>parsed. file = Parsed parsed \<and> truthyJ (member parsed ''input'')
             \<and> member parsed ''input'' \<noteq> Some (JStr inputPath))
     \<longrightarrow> loadProgress file inputPath now = freshProgress inputPath now"
    by (rule impI) (rule fresh)
  have B: "\<forall>parsed. file = Parsed parsed \<and> parsed \<noteq> JNull
          \<and> (\<not> truthyJ (member parsed ''input'')
               \<or> member parsed ''input'' = Some (JStr inputPath))
        \<longrightarrow> (loadProgress file inputPath now = resumedProgress parsed inputPath now
           \<and> member (loadProgress file inputPath now) ''input'' = Some (JStr inputPath)
           \<and> (\<forall>k \<in> set storedKeys. truthyJ (member parsed k) \<longrightarrow>
                 member (loadProgress file inputPath now) k = member parsed k))"
    by (intro allI impI) (rule resume)
  show ?thesis
    by (intro conjI) (rule A B f)+
qed

lemmas progress_eval =
  loadProgress_def freshProgress_def resumedProgress_def member_JObj orElse_def truthyJ_def
  storedRun_def unlabelledRun_def blankInputRun_def emptyCounts_def STAGES_PREP_def
  sampleNow_def storedKeys_def

theorem loadProgress_resume_or_fresh_witness:
  "loadProgress Absent ''trials.csv'' sampleNow = freshProgress ''trials.csv'' sampleNow
   \<and> loadProgress (Parsed storedRun) ''other.csv'' sampleNow
       = freshProgress ''other.csv'' sampleNow
   \<and> member (loadProgress (Parsed storedRun) ''trials.csv'' sampleNow) ''stage''
       = Some (JStr ''RESULT_GEN_UPLOAD'')
   \<and> member (loadProgress (Parsed storedRun) ''trials.csv'' sampleNow) ''registrations''
       = member storedRun ''registrations''"
proof -
  have a: "loadProgress Absent ''trials.csv'' sampleNow = freshProgress ''trials.csv'' sampleNow"
    using loadProgress_resume_or_fresh [of Absent "''trials.csv''" sampleNow] by simp
  have m: "truthyJ (member storedRun ''input'')"
      "member storedRun ''input'' \<noteq> Some (JStr ''other.csv'')"
      "member storedRun ''input'' = Some (JStr ''trials.csv'')"
      "storedRun \<noteq> JNull"
      "member storedRun ''stage'' = Some (JStr ''RESULT_GEN_UPLOAD'')"
      "truthyJ (member storedRun ''stage'')"
      "truthyJ (member storedRun ''registrations'')"
    by (simp_all add: storedRun_def member_JObj truthyJ_def)
  have k: "''stage'' \<in> set storedKeys" "''registrations'' \<in> set storedKeys"
    by (simp_all add: storedKeys_def)
  from loadProgress_resume_or_fresh [of "Parsed storedRun" "''other.csv''" sampleNow] m(1,2)
  have b: "loadProgress (Parsed storedRun) ''other.csv'' sampleNow
       = freshProgress ''other.csv'' sampleNow"
    by blast
  from loadProgress_resume_or_fresh [of "Parsed storedRun" "''trials.csv''" sampleNow] m(3,4)
  have r: "\<forall>k \<in> set storedKeys. truthyJ (member storedRun k) \<longrightarrow>
             member (loadProgress (Parsed storedRun) ''trials.csv'' sampleNow) k
               = member storedRun k"
    by blast
  from r k(1) m(5,6)
  have c: "member (loadProgress (Parsed storedRun) ''trials.csv'' sampleNow) ''stage''
       = Some (JStr ''RESULT_GEN_UPLOAD'')"
    by metis
  from r k(2) m(7)
  have d: "member (loadProgress (Parsed storedRun) ''trials.csv'' sampleNow) ''registrations''
       = member storedRun ''registrations''"
    by metis
  show ?thesis by (intro conjI) (rule a b c d)+
qed

text \<open>
  The claim as stated (a run is resumed only when the recorded input path matches the
  current one) fails: a stored progress without an input path, or with an empty one, is
  resumed at its stored stage.
\<close>

theorem loadProgress_resumes_unmatched_input_counterexample:
  "member unlabelledRun ''input'' = None
   \<and> member (loadProgress (Parsed unlabelledRun) ''trials.csv'' sampleNow) ''stage''
       = Some (JStr ''FINALIZE'')
   \<and> loadProgress (Parsed unlabelledRun) ''trials.csv'' sampleNow
       \<noteq> freshProgress ''trials.csv'' sampleNow
   \<and> member blankInputRun ''input'' = Some (JStr [])
   \<and> member (loadProgress (Parsed blankInputRun) ''trials.csv'' sampleNow) ''stage''
       = Some (JStr ''FINALIZE'')
   \<and> loadProgress (Parsed blankInputRun) ''trials.csv'' sampleNow
       \<noteq> freshProgress ''trials.csv'' sampleNow"
  by (simp add: progress_eval)

section \<open>Properties of the chunk packing\<close>

text \<open>
  Where the configuration admits at least one request per chunk and every request fits
  under the byte cap by itself, every written chunk is non-empty and within both limits.
\<close>

lemma addRequest_snoc:
  "addRequest cfg (ws @ [cur]) req =
     (if int (length (curRequests cur)) \<ge> maxRequestsPerBatch cfg
         \<or> int (curBytes cur + requestBytes req) > effectiveMaxBytes cfg
      then ws @ [cur, withRequest (newChunk (Suc (length ws))) req]
      else ws @ [withRequest cur req])"
  by (simp add: addRequest_def withRequest_def Let_def butlast_append)

lemma addRequest_limits:
  assumes "1 \<le> maxRequestsPerBatch cfg"
    and "int (requestBytes req) \<le> effectiveMaxBytes cfg"
    and "work \<noteq> []"
    and "\<forall>c \<in> set work. withinLimits cfg c"
    and "\<forall>c \<in> set (butlast work). curRequests c \<noteq> []"
  shows "addRequest cfg work req \<noteq> []
         \<and> (\<forall>c \<in> set (addRequest cfg work req). withinLimits cfg c)
         \<and> (\<forall>c \<in> set (addRequest cfg work req). curRequests c \<noteq> [])"
proof -
  from assms(3) obtain ws cur where w: "work = ws @ [cur]"
    by (metis rev_exhaust)
  from assms(4,5) w have lim: "\<forall>c \<in> set ws. withinLimits cfg c" "withinLimits cfg cur"
    and ne: "\<forall>c \<in> set ws. curRequests c \<noteq> []"
    by simp_all
  show ?thesis
  proof (cases "int (length (curRequests cur)) \<ge> maxRequestsPerBatch cfg
         \<or> int (curBytes cur + requestBytes req) > effectiveMaxBytes cfg")
    case True
    have "curRequests cur \<noteq> []"
    proof
      assume e: "curRequests cur = []"
      with lim(2) have "curBytes cur = 0" by (simp add: withinLimits_def)
      with e True assms(1,2) show False by simp
    qed
    moreover have "withinLimits cfg (withRequest (newChunk (Suc (length ws))) req)"
      using assms(1,2) by (simp add: withinLimits_def withRequest_def newChunk_def)
    moreover have "curRequests (withRequest (newChunk (Suc (length ws))) req) \<noteq> []"
      by (simp add: withRequest_def)
    ultimately show ?thesis
      using True lim ne unfolding w addRequest_snoc by auto
  next
    case False
    with lim(2) have "withinLimits cfg (withRequest cur req)"
      by (simp add: withinLimits_def withRequest_def)
    moreover have "curRequests (withRequest cur req) \<noteq> []"
      by (simp add: withRequest_def)
    ultimately show ?thesis
      using False lim ne unfolding w addRequest_snoc by auto
  qed
qed

lemma foldl_addRequest_limits:
  assumes "1 \<le> maxRequestsPerBatch cfg"
    and "\<forall>req \<in> set reqs. int (requestBytes req) \<le> effectiveMaxBytes cfg"
    and "work \<noteq> []"
    and "\<forall>c \<in> set work. withinLimits cfg c"
    and "\<forall>c \<in> set (butlast work). curRequests c \<noteq> []"
  shows "foldl (addRequest cfg) work reqs \<noteq> []
         \<and> (\<forall>c \<in> set (foldl (addRequest cfg) work reqs). withinLimits cfg c)
         \<and> (\<forall>c \<in> set (butlast (foldl (addRequest cfg) work reqs)). curRequests c \<noteq> [])"
  using assms
proof (induction reqs arbitrary: work)
  case Nil
  then show ?case by simp
next
  case (Cons req reqs)
  from Cons.prems have r: "int (requestBytes req) \<le> effectiveMaxBytes cfg" by simp
  note step = addRequest_limits [OF Cons.prems(1) r Cons.prems(3,4,5)]
  have "\<forall>c \<in> set (butlast (addRequest cfg work req)). curRequests c \<noteq> []"
    using step by (meson in_set_butlastD)
  with step Cons.prems(1,2) Cons.IH [of "addRequest cfg work req"] show ?case
    by simp
qed

lemma packRequests_within_limits:
  assumes "1 \<le> maxRequestsPerBatch cfg"
    and "\<forall>req \<in> set reqs. int (requestBytes req) \<le> effectiveMaxBytes cfg"
  shows "\<forall>c \<in> set (packRequests cfg reqs).
           withinLimits cfg c \<and> curRequests c \<noteq> []"
proof (cases reqs)
  case Nil
  then show ?thesis by (simp add: packRequests_def newChunk_def)
next
  case (Cons req rest)
  with assms(2) have cap: "0 \<le> effectiveMaxBytes cfg" by force
  let ?work = "foldl (addRequest cfg) [newChunk 0] reqs"
  have z: "\<forall>c \<in> set [newChunk 0]. withinLimits cfg c"
    using assms(1) cap by (simp add: withinLimits_def newChunk_def)
  from foldl_addRequest_limits [OF assms(1,2) _ z]
  have w: "?work \<noteq> []" "\<forall>c \<in> set ?work. withinLimits cfg c"
    "\<forall>c \<in> set (butlast ?work). curRequests c \<noteq> []"
    by simp_all
  show ?thesis
  proof (cases "curRequests (last ?work) \<noteq> []")
    case True
    have "\<forall>c \<in> set ?work. curRequests c \<noteq> []"
    proof
      fix c assume "c \<in> set ?work"
      with w(1) have "c \<in> set (butlast ?work) \<or> c = last ?work"
        by (metis append_butlast_last_id Un_iff set_append empty_iff empty_set insert_iff list.set(2))
      with w(3) True show "curRequests c \<noteq> []" by auto
    qed
    with True w(2) show ?thesis by (simp add: packRequests_def Let_def)
  next
    case False
    with w(2,3) show ?thesis
      by (auto simp: packRequests_def Let_def dest: in_set_butlastD)
  qed
qed

lemmas preparation_eval =
  stageResultGenPreparation_def packRequests_def addRequest_def newChunk_def chunkMetadata_def
  rowRequests_def buildRequest_def ceilDiv4_def chunkSizes_def effectiveMaxBytes_def
  tightConfig_def sizedEnv_def longAbstract_def startProgress_def publicationsWithPmids_def
  customId_def strOf_def tagged_def candidate_def truthy_def euctrRegistration_def Let_def

text \<open>
  C2 at a request of 600 bytes under a cap of 500: the stage writes an empty chunk 0 and a
  chunk 1 of one request whose \<open>sizeBytes\<close> is 600.
\<close>

theorem preparation_writes_oversized_chunk:
  "effectiveMaxBytes tightConfig = 500
   \<and> chunkSizes (stageResultGenPreparation tightConfig sizedEnv ''2025-03-01''
                   [''2007-002931-95''] (startProgress [longAbstract]))
       = [(0, 0, 0), (1, 1, 600)]"
  by (simp add: preparation_eval)

text \<open>
  C3 at the same request between two small ones: the stage does not raise, it advances
  to RESULT_GEN_UPLOAD with the oversized chunk stored.
\<close>

theorem preparation_raises_no_error:
  "stage (stageResultGenPreparation tightConfig sizedEnv ''2025-03-01''
            [''2007-002931-95''] (startProgress [tagged ''222'' [], longAbstract, tagged ''333'' []]))
     = RESULT_GEN_UPLOAD
   \<and> chunkSizes (stageResultGenPreparation tightConfig sizedEnv ''2025-03-01''
                   [''2007-002931-95''] (startProgress [tagged ''222'' [], longAbstract, tagged ''333'' []]))
       = [(0, 1, 200), (1, 1, 600), (2, 1, 200)]"
  by (simp add: preparation_eval)

section \<open>Properties of the daily budget\<close>




















end
